theory Spec2Isabelle
  imports Main "HOL-Library.Word" "HOL-Library.Signed_Division"
begin

section \<open>The snapshot collector of ksync (app/collector/snapshots.go)\<close>

text \<open>
  The collector translates "data for height H" into bundle ids of a remote pool. Its
  integers are Go's \<open>int64\<close>: 64-bit words read as two's complement, whose \<open>+\<close> and
  \<open>-\<close> wrap around, whose comparisons are signed, and whose \<open>/\<close> and \<open>%\<close> truncate
  towards zero and panic on a zero divisor.
\<close>

subsection \<open>Go's int64\<close>

type_synonym int64 = "64 word"
type_synonym byte = "8 word"

text \<open>Go's \<open>a / b\<close> on int64, for \<open>b \<noteq> 0\<close>: the quotient truncated towards zero.\<close>

definition quo64 :: "int64 \<Rightarrow> int64 \<Rightarrow> int64" where
  "quo64 a b = word_of_int (sint a sdiv sint b)"

text \<open>Go's \<open>a % b\<close> on int64, for \<open>b \<noteq> 0\<close>: the remainder has the sign of \<open>a\<close>.\<close>

definition rem64 :: "int64 \<Rightarrow> int64 \<Rightarrow> int64" where
  "rem64 a b = word_of_int (sint a smod sint b)"

subsection \<open>Go's standard library: strings.Split and strconv.ParseInt\<close>

text \<open>
  \<open>strings.Split(s, sep)\<close> for a separator of one character: the substrings between the
  separators, so a string without the separator (the empty string too) gives one field.
\<close>

fun Split :: "string \<Rightarrow> char \<Rightarrow> string list" where
  "Split [] sep = [[]]"
| "Split (c # s) sep =
     (if c = sep then [] # Split s sep
      else (case Split s sep of
              [] \<Rightarrow> [[c]]
            | field # fields \<Rightarrow> (c # field) # fields))"

datatype NumError = ErrSyntax | ErrRange

definition maxUint64 :: nat where
  "maxUint64 = 2 ^ 64 - 1"

definition is_digit :: "char \<Rightarrow> bool" where
  "is_digit c \<longleftrightarrow> (of_char (CHR ''0'') :: nat) \<le> of_char c \<and> (of_char c :: nat) \<le> of_char (CHR ''9'')"

definition digit_val :: "char \<Rightarrow> nat" where
  "digit_val c = of_char c - of_char (CHR ''0'')"

text \<open>
  The loop of \<open>strconv.ParseUint(s, 10, 64)\<close>: a character that is not a decimal digit
  is a syntax error, a value beyond 64 bits a range error, whichever comes first.
\<close>

fun ParseUint_loop :: "nat \<Rightarrow> string \<Rightarrow> NumError + nat" where
  "ParseUint_loop n [] = Inr n"
| "ParseUint_loop n (c # s) =
     (if \<not> is_digit c then Inl ErrSyntax
      else if maxUint64 div 10 + 1 \<le> n then Inl ErrRange
      else (let n1 = n * 10 + digit_val c
            in if maxUint64 < n1 then Inl ErrRange else ParseUint_loop n1 s))"

definition ParseUint :: "string \<Rightarrow> NumError + nat" where
  "ParseUint s = (if s = [] then Inl ErrSyntax else ParseUint_loop 0 s)"

text \<open>
  \<open>strconv.ParseInt(s, 10, 64)\<close>: an optional sign, then ParseUint; a range error of
  ParseUint continues with the largest unsigned value and ends as a range error here.
\<close>

definition ParseInt :: "string \<Rightarrow> NumError + int64" where
  "ParseInt s =
     (if s = [] then Inl ErrSyntax
      else
        (let neg = (hd s = CHR ''-'');
             s1 = (if hd s = CHR ''+'' \<or> hd s = CHR ''-'' then tl s else s)
         in case ParseUint s1 of
              Inl ErrSyntax \<Rightarrow> Inl ErrSyntax
            | r \<Rightarrow>
                (let un = (case r of Inr n \<Rightarrow> n | Inl _ \<Rightarrow> maxUint64)
                 in if \<not> neg \<and> 2 ^ 63 \<le> un then Inl ErrRange
                    else if neg \<and> 2 ^ 63 < un then Inl ErrRange
                    else Inr (if neg then - of_nat un else of_nat un))))"

subsection \<open>Data\<close>

text \<open>The struct \<open>KyveSnapshotCollector\<close>.\<close>

record KyveSnapshotCollector =
  poolId :: int64
  chainRest :: string
  earliestAvailableHeight :: int64
  latestAvailableHeight :: int64
  interval :: int64
  totalBundles :: int64

text \<open>
  The types of package \<open>types\<close> and the pool response are declared outside the sources
  at hand; the records below hold the fields that snapshots.go reads.
\<close>

record TendermintSSyncConfig =
  Interval :: int64

record PoolData =
  Runtime :: string
  Config :: string
  StartKey :: string
  CurrentKey :: string
  CurrentSummary :: string
  TotalBundles :: int64

record PoolInfo =
  Data :: PoolData

record PoolResponse =
  Pool :: PoolInfo

text \<open>
  Modelled from the spec: \<open>types.FinalizedBundle\<close> is not among the sources; the spec
  gives a finalized bundle a \<open>toKey\<close> and an opaque reference to its payload.
\<close>

record FinalizedBundle =
  ToKey :: string
  payloadRef :: string

record SnapshotValue =
  Chunk :: "byte list"

record SnapshotDataItem =
  Value :: SnapshotValue

type_synonym SnapshotBundle = "SnapshotDataItem list"

subsection \<open>Errors\<close>

text \<open>
  Every \<open>fmt.Errorf\<close> of snapshots.go is one constructor, holding what its message
  prints; \<open>cause\<close> is the wrapped error of the helper that failed. The names follow the
  spec's taxonomy where it has one.
\<close>

type_synonym cause = string

datatype error =
    GetPoolFailed int64 cause
  | InvalidRuntimeError int64 string string
  | ConfigParseError string cause
  | StartKeyError string cause
  | CurrentKeyError string cause
  | GetBundleFailed int64 cause
  | GetDataFailed cause
  | BundleUnmarshalFailed cause
  | MalformedBundleError
  | KeyFormatError string cause
  | HeightNotFoundError int64

text \<open>The run-time panic of an integer division by zero.\<close>

datatype panic = DivideByZero

subsection \<open>Collaborators\<close>

text \<open>
  snapshots.go calls package \<open>utils\<close> and \<open>encoding/json\<close>, which are not among the
  sources. They are parameters of the model: the remote pool and bundle endpoints, the
  key codec, the expected runtime tag, the storage retrieval and the two JSON decoders.
  A remote answer is a function of the request, so within one operation the same
  request has the same answer.
\<close>

record deps =
  GetPool :: "string \<Rightarrow> int64 \<Rightarrow> cause + PoolResponse"
  RuntimeTendermintSsync :: string
  UnmarshalConfig :: "string \<Rightarrow> cause + TendermintSSyncConfig"
  ParseSnapshotFromKey :: "string \<Rightarrow> cause + (int64 \<times> int64)"
  GetFinalizedBundleById :: "string \<Rightarrow> int64 \<Rightarrow> int64 \<Rightarrow> cause + FinalizedBundle"
  GetDataFromFinalizedBundle :: "FinalizedBundle \<Rightarrow> cause + byte list"
  UnmarshalBundle :: "byte list \<Rightarrow> cause + SnapshotBundle"

subsection \<open>Construction\<close>

text \<open>
  The summary check of the constructor: the current snapshot counts as complete when
  the summary has four fields and the fourth parses to the chunk index plus one.
\<close>

definition deriveLatestAvailableHeight :: "string \<Rightarrow> int64 \<Rightarrow> int64 \<Rightarrow> int64 \<Rightarrow> int64" where
  "deriveLatestAvailableHeight currentSummary currentHeight chunkIndex configInterval =
     (let summary = Split currentSummary (CHR ''/'')
      in if length summary = 4 then
           (case ParseInt (summary ! 3) of
              Inr totalChunks \<Rightarrow>
                if totalChunks = chunkIndex + 1 then currentHeight
                else currentHeight - configInterval
            | Inl _ \<Rightarrow> currentHeight - configInterval)
         else currentHeight - configInterval)"

definition NewKyveSnapshotCollector :: "deps \<Rightarrow> int64 \<Rightarrow> string \<Rightarrow> error + KyveSnapshotCollector" where
  "NewKyveSnapshotCollector u pool_id chain_rest =
     (case GetPool u chain_rest pool_id of
        Inl err \<Rightarrow> Inl (GetPoolFailed pool_id err)
      | Inr poolResponse \<Rightarrow>
          (let d = Data (Pool poolResponse)
           in if Runtime d \<noteq> RuntimeTendermintSsync u
              then Inl (InvalidRuntimeError pool_id (RuntimeTendermintSsync u) (Runtime d))
              else
                (case UnmarshalConfig u (Config d) of
                   Inl err \<Rightarrow> Inl (ConfigParseError (Config d) err)
                 | Inr config \<Rightarrow>
                     (case ParseSnapshotFromKey u (StartKey d) of
                        Inl err \<Rightarrow> Inl (StartKeyError (StartKey d) err)
                      | Inr (startHeight, _) \<Rightarrow>
                          (case ParseSnapshotFromKey u (CurrentKey d) of
                             Inl err \<Rightarrow> Inl (CurrentKeyError (CurrentKey d) err)
                           | Inr (currentHeight, chunkIndex) \<Rightarrow>
                               Inr \<lparr> poolId = pool_id,
                                     chainRest = chain_rest,
                                     earliestAvailableHeight = startHeight,
                                     latestAvailableHeight =
                                       deriveLatestAvailableHeight (CurrentSummary d)
                                         currentHeight chunkIndex (Interval config),
                                     interval = Interval config,
                                     totalBundles = TotalBundles d \<rparr>)))))"

subsection \<open>Heights\<close>

definition GetSnapshotHeight :: "KyveSnapshotCollector \<Rightarrow> int64 \<Rightarrow> bool \<Rightarrow> panic + int64" where
  "GetSnapshotHeight collector targetHeight isServeSnapshot =
     (if targetHeight = 0 \<or> latestAvailableHeight collector <s targetHeight then
        (if isServeSnapshot \<and> interval collector <s latestAvailableHeight collector
         then Inr (latestAvailableHeight collector - interval collector)
         else Inr (latestAvailableHeight collector))
      else if interval collector = 0 then Inl DivideByZero
      else Inr (targetHeight - rem64 targetHeight (interval collector)))"

subsection \<open>Bundles\<close>

definition GetSnapshotFromBundleId :: "deps \<Rightarrow> KyveSnapshotCollector \<Rightarrow> int64 \<Rightarrow> error + SnapshotDataItem" where
  "GetSnapshotFromBundleId u collector bundleId =
     (case GetFinalizedBundleById u (chainRest collector) (poolId collector) bundleId of
        Inl err \<Rightarrow> Inl (GetBundleFailed bundleId err)
      | Inr chunkBundleFinalized \<Rightarrow>
          (case GetDataFromFinalizedBundle u chunkBundleFinalized of
             Inl err \<Rightarrow> Inl (GetDataFailed err)
           | Inr data \<Rightarrow>
               (case UnmarshalBundle u data of
                  Inl err \<Rightarrow> Inl (BundleUnmarshalFailed err)
                | Inr bundle \<Rightarrow>
                    if length bundle \<noteq> 1 then Inl MalformedBundleError
                    else Inr (bundle ! 0))))"

definition DownloadChunkFromBundleId :: "deps \<Rightarrow> KyveSnapshotCollector \<Rightarrow> int64 \<Rightarrow> error + byte list" where
  "DownloadChunkFromBundleId u collector bundleId =
     (case GetFinalizedBundleById u (chainRest collector) (poolId collector) bundleId of
        Inl err \<Rightarrow> Inl (GetBundleFailed bundleId err)
      | Inr chunkBundleFinalized \<Rightarrow>
          (case GetDataFromFinalizedBundle u chunkBundleFinalized of
             Inl err \<Rightarrow> Inl (GetDataFailed err)
           | Inr data \<Rightarrow>
               (case UnmarshalBundle u data of
                  Inl err \<Rightarrow> Inl (BundleUnmarshalFailed err)
                | Inr bundle \<Rightarrow>
                    if length bundle \<noteq> 1 then Inl MalformedBundleError
                    else Inr (Chunk (Value (bundle ! 0))))))"

text \<open>
  The binary search loop of \<open>FindSnapshotBundleIdForHeight\<close>, on \<open>low\<close> and \<open>high\<close>.
  With wrapping int64 arithmetic the loop need not end, so not returning is \<open>None\<close>.
  The pause between two probes (\<open>time.Sleep\<close>) has no effect on the result.
\<close>

partial_function (option) searchLoop ::
  "deps \<Rightarrow> KyveSnapshotCollector \<Rightarrow> int64 \<Rightarrow> int64 \<Rightarrow> int64 \<Rightarrow> (error + int64) option" where
  "searchLoop u collector height low high =
     (if low \<le>s high then
        (let mid = quo64 (low + high) 2
         in case GetFinalizedBundleById u (chainRest collector) (poolId collector) mid of
              Inl err \<Rightarrow> Some (Inl (GetBundleFailed mid err))
            | Inr finalizedBundle \<Rightarrow>
                (case ParseSnapshotFromKey u (ToKey finalizedBundle) of
                   Inl err \<Rightarrow> Some (Inl (KeyFormatError (ToKey finalizedBundle) err))
                 | Inr (h, chunkIndex) \<Rightarrow>
                     if h <s height then searchLoop u collector height (mid + 1) high
                     else if height <s h then searchLoop u collector height low (mid - 1)
                     else Some (Inr (mid - chunkIndex))))
      else Some (Inl (HeightNotFoundError height)))"

definition FindSnapshotBundleIdForHeight ::
  "deps \<Rightarrow> KyveSnapshotCollector \<Rightarrow> int64 \<Rightarrow> (error + int64) option" where
  "FindSnapshotBundleIdForHeight u collector height =
     (let latestBundleId = totalBundles collector - 1
      in if height = latestAvailableHeight collector then
           (case GetFinalizedBundleById u (chainRest collector) (poolId collector) latestBundleId of
              Inl err \<Rightarrow> Some (Inl (GetBundleFailed latestBundleId err))
            | Inr finalizedBundle \<Rightarrow>
                (case ParseSnapshotFromKey u (ToKey finalizedBundle) of
                   Inl err \<Rightarrow> Some (Inl (KeyFormatError (ToKey finalizedBundle) err))
                 | Inr (h, chunkIndex) \<Rightarrow>
                     if h = height then Some (Inr (latestBundleId - chunkIndex))
                     else searchLoop u collector height 0 latestBundleId))
         else searchLoop u collector height 0 latestBundleId)"

subsection \<open>Bundle sequences and simulated pools\<close>

text \<open>
  A remote that serves a given sequence of finalized bundles: bundle id \<open>i\<close> is the
  \<open>i\<close>-th bundle of the sequence, and every other id is refused.
\<close>

definition servedBundles :: "FinalizedBundle list \<Rightarrow> string \<Rightarrow> int64 \<Rightarrow> int64 \<Rightarrow> cause + FinalizedBundle" where
  "servedBundles bundles chain_rest pool_id bundleId =
     (if 0 \<le>s bundleId \<and> nat (sint bundleId) < length bundles
      then Inr (bundles ! nat (sint bundleId))
      else Inl ''bundle not found'')"

text \<open>
  The chunk indices of a sequence of decoded keys \<open>(height, chunkIndex)\<close> are
  contiguous when every key continues the count of its predecessor at the same height
  and starts again at 0 at a new height. A sequence starts at chunk zero when its first
  key, if any, has chunk index 0.
\<close>

fun chunksContiguous :: "(int64 \<times> int64) list \<Rightarrow> bool" where
  "chunksContiguous (k1 # k2 # ks) =
     (snd k2 = (if fst k2 = fst k1 then snd k1 + 1 else 0) \<and> chunksContiguous (k2 # ks))"
| "chunksContiguous ks = True"

definition startsAtChunkZero :: "(int64 \<times> int64) list \<Rightarrow> bool" where
  "startsAtChunkZero ks = (case ks of [] \<Rightarrow> True | k # _ \<Rightarrow> snd k = 0)"

text \<open>
  Modelled from the spec: \<open>utils.ParseSnapshotFromKey\<close> is not among the sources. The
  spec's compound key is the ASCII string \<open><height>/<partIndex>\<close>, and parsing fails
  on non-integer components. The operations take the key codec as a parameter; this
  one instantiates it in the concrete pools below.
\<close>

definition keyCodec :: "string \<Rightarrow> cause + (int64 \<times> int64)" where
  "keyCodec key =
     (case Split key (CHR ''/'') of
        [a, b] \<Rightarrow>
          (case ParseInt a of
             Inl _ \<Rightarrow> Inl ''error parsing key''
           | Inr height \<Rightarrow>
               (case ParseInt b of
                  Inl _ \<Rightarrow> Inl ''error parsing key''
                | Inr chunkIndex \<Rightarrow> Inr (height, chunkIndex)))
      | _ \<Rightarrow> Inl ''error parsing key'')"

text \<open>
  A simulated pool: the pool endpoint answers with the given pool data, the config
  decodes to the given interval (or fails to decode when there is none), the bundle
  endpoint serves the given bundles, a bundle's payload is the bytes of its reference,
  and every payload decodes to the given items. The expected runtime tag, a constant of
  package \<open>utils\<close>, is taken to be \<open>@kyvejs/tendermint-ssync\<close>.
\<close>

definition simulatedPool ::
  "PoolData \<Rightarrow> int64 option \<Rightarrow> FinalizedBundle list \<Rightarrow> SnapshotBundle \<Rightarrow> deps" where
  "simulatedPool d configInterval bundles items =
     \<lparr> GetPool = (\<lambda>chain_rest pool_id. Inr \<lparr> Pool = \<lparr> Data = d \<rparr> \<rparr>),
       RuntimeTendermintSsync = ''@kyvejs/tendermint-ssync'',
       UnmarshalConfig = (\<lambda>config. case configInterval of
                            None \<Rightarrow> Inl ''invalid character''
                          | Some i \<Rightarrow> Inr \<lparr> Interval = i \<rparr>),
       ParseSnapshotFromKey = keyCodec,
       GetFinalizedBundleById = servedBundles bundles,
       GetDataFromFinalizedBundle = (\<lambda>b. Inr (map of_char (payloadRef b))),
       UnmarshalBundle = (\<lambda>data. Inr items) \<rparr>"

definition bundleTo :: "string \<Rightarrow> FinalizedBundle" where
  "bundleTo key = \<lparr> ToKey = key, payloadRef = key \<rparr>"

text \<open>
  The spec's scenario: interval 1000, start key 0/0, current key 5000/2, and a summary
  that announces 5 chunks, so the snapshot at 5000 is not complete; ten bundles for the
  heights 1000 to 4000.
\<close>

definition scenarioData :: PoolData where
  "scenarioData =
     \<lparr> Runtime = ''@kyvejs/tendermint-ssync'', Config = ''{\"interval\":1000}'',
       StartKey = ''0/0'', CurrentKey = ''5000/2'', CurrentSummary = ''5000/1/2/5'',
       TotalBundles = 10 \<rparr>"

definition scenarioBundles :: "FinalizedBundle list" where
  "scenarioBundles =
     map bundleTo [''1000/0'', ''1000/1'', ''2000/0'', ''2000/1'', ''3000/0'', ''3000/1'',
                   ''4000/0'', ''4000/1'', ''4000/2'', ''4000/3'']"

definition scenarioPool :: deps where
  "scenarioPool = simulatedPool scenarioData (Some 1000) scenarioBundles []"

definition scenarioCollector :: KyveSnapshotCollector where
  "scenarioCollector =
     \<lparr> poolId = 2, chainRest = ''rest'', earliestAvailableHeight = 0,
       latestAvailableHeight = 4000, interval = 1000, totalBundles = 10 \<rparr>"

text \<open>The decoded keys of the scenario's ten bundles.\<close>

definition scenarioKeys :: "(int64 \<times> int64) list" where
  "scenarioKeys =
     [(1000, 0), (1000, 1), (2000, 0), (2000, 1), (3000, 0), (3000, 1),
      (4000, 0), (4000, 1), (4000, 2), (4000, 3)]"

text \<open>
  A pool whose chunk indices are not contiguous: the second bundle of height 1000
  carries chunk index 5.
\<close>

definition gapBundles :: "FinalizedBundle list" where
  "gapBundles = map bundleTo [''1000/0'', ''1000/5'', ''2000/0'']"

definition gapPool :: deps where
  "gapPool = simulatedPool (scenarioData\<lparr> TotalBundles := 3 \<rparr>) (Some 1000) gapBundles []"

definition gapCollector :: KyveSnapshotCollector where
  "gapCollector =
     \<lparr> poolId = 2, chainRest = ''rest'', earliestAvailableHeight = 0,
       latestAvailableHeight = 2000, interval = 1000, totalBundles = 3 \<rparr>"

text \<open>
  A remote that serves a bundle with the key 0/0 for every id, also a negative one.
\<close>

definition endlessPool :: deps where
  "endlessPool =
     (simulatedPool scenarioData (Some 1000) [] [])
       \<lparr> GetFinalizedBundleById := (\<lambda>chain_rest pool_id bundleId. Inr (bundleTo ''0/0'')) \<rparr>"

section \<open>Properties\<close>

subsection \<open>Evaluation of the concrete pools\<close>

lemmas parse_defs =
  keyCodec_def ParseInt_def ParseUint_def is_digit_def digit_val_def maxUint64_def

lemmas pool_defs =
  simulatedPool_def scenarioData_def scenarioBundles_def bundleTo_def servedBundles_def

lemma scenario_construct:
  "NewKyveSnapshotCollector scenarioPool 2 ''rest'' = Inr scenarioCollector"
  by (simp add: NewKyveSnapshotCollector_def scenarioPool_def scenarioCollector_def pool_defs
        parse_defs deriveLatestAvailableHeight_def)

subsection \<open>Arithmetic of int64\<close>

lemma sint_word_of_int64:
  "- (2 ^ 63) \<le> k \<Longrightarrow> k < 2 ^ 63 \<Longrightarrow> sint (word_of_int k :: int64) = k"
  by (simp add: sint_sbintrunc' signed_take_bit_int_eq_self)

lemma sint64_lt: "sint (w :: int64) < 2 ^ 63"
  using sint_lt[of w] by simp

lemma sint_of_nat64: "k < 2 ^ 63 \<Longrightarrow> sint (of_nat k :: int64) = int k"
proof -
  assume "k < 2 ^ 63"
  then have "int k < 2 ^ 63"
    by (metis of_nat_less_iff of_nat_numeral of_nat_power)
  then have "sint (word_of_int (int k) :: int64) = int k"
    by (intro sint_word_of_int64) auto
  then show ?thesis by simp
qed

lemma sint_of_nat_pred64: "k \<le> 2 ^ 62 \<Longrightarrow> sint (of_nat k - 1 :: int64) = int k - 1"
proof -
  assume "k \<le> 2 ^ 62"
  then have "int k \<le> 2 ^ 62"
    by (metis of_nat_le_iff of_nat_numeral of_nat_power)
  then have "sint (word_of_int (int k - 1) :: int64) = int k - 1"
    by (intro sint_word_of_int64) auto
  then show ?thesis by simp
qed

lemma smod_nonneg: "0 \<le> a \<Longrightarrow> 0 < b \<Longrightarrow> (a::int) smod b = a mod b"
  by (simp add: signed_modulo_int_def sgn_if)

text \<open>
  The loop condition and the midpoint on indices: \<open>low\<close> is the index \<open>lo\<close>, and
  \<open>high\<close> is one below the exclusive bound \<open>hi1\<close> (so -1 for an empty range). Up to
  \<open>2 ^ 62\<close> bundles the sum \<open>low + high\<close> does not wrap.
\<close>

lemma low_le_high_iff:
  assumes "lo \<le> hi1" "hi1 \<le> 2 ^ 62"
  shows "(of_nat lo :: int64) \<le>s of_nat hi1 - 1 \<longleftrightarrow> lo < hi1"
proof -
  have "lo < 2 ^ 63"
    using assms by (simp add: order.strict_trans1[of lo "2 ^ 62" "2 ^ 63"] le_trans[of lo hi1 "2 ^ 62"])
  then show ?thesis
    using assms by (simp add: word_sle_eq sint_of_nat64 sint_of_nat_pred64)
qed

lemma mid_of_nat:
  assumes "lo < hi1" "hi1 \<le> 2 ^ 62"
  shows "quo64 (of_nat lo + (of_nat hi1 - 1)) 2 = of_nat ((lo + hi1 - 1) div 2)"
proof -
  have b: "lo + hi1 - 1 < 2 ^ 63" using assms by simp
  have "(of_nat lo + (of_nat hi1 - 1) :: int64) = of_nat (lo + hi1 - 1)"
    using assms by simp
  moreover have "sint (of_nat (lo + hi1 - 1) :: int64) = int (lo + hi1 - 1)"
    using b by (rule sint_of_nat64)
  moreover have "int (lo + hi1 - 1) sdiv 2 = int ((lo + hi1 - 1) div 2)"
    by (simp add: signed_divide_int_def sgn_if zdiv_int)
  ultimately show ?thesis
    by (simp add: quo64_def)
qed

text \<open>
  Beyond that bound the sum wraps: with \<open>low = 2 ^ 62\<close> and \<open>high = 2 ^ 63 - 2\<close> the
  midpoint is negative.
\<close>

lemma midpoint_wraps:
  "quo64 (4611686018427387904 + 9223372036854775806) 2 = - 2305843009213693953"
  by (simp add: quo64_def signed_divide_int_def)

subsection \<open>GetSnapshotHeight\<close>

text \<open>
  C5. Without the serve role, a target height of 0 or one above the latest available
  height resolves to the latest available height.
\<close>

theorem GetSnapshotHeight_latest:
  "targetHeight = 0 \<or> latestAvailableHeight collector <s targetHeight \<Longrightarrow>
     GetSnapshotHeight collector targetHeight False = Inr (latestAvailableHeight collector)"
  by (simp add: GetSnapshotHeight_def)

theorem GetSnapshotHeight_latest_witness:
  "((0::int64) = 0 \<or> latestAvailableHeight scenarioCollector <s 0) \<and>
   GetSnapshotHeight scenarioCollector 0 False = Inr 4000 \<and>
   ((4500::int64) = 0 \<or> latestAvailableHeight scenarioCollector <s 4500) \<and>
   GetSnapshotHeight scenarioCollector 4500 False = Inr 4000"
  using GetSnapshotHeight_latest[of 0 scenarioCollector]
    GetSnapshotHeight_latest[of 4500 scenarioCollector]
  by (simp add: scenarioCollector_def word_sless_alt)

text \<open>
  C1, as stated, fails: a target equal to a latest available height other than 0 is
  neither 0 nor above the latest height, so it is rounded down to the interval boundary
  and the serve role plays no part. In the scenario (latest 4000, interval 1000) the
  target 4000 resolves to 4000, not to 3000; with a latest height of 500, below the
  interval, the target 500 resolves to 0, not to 500.
\<close>

theorem GetSnapshotHeight_serve_at_latest_counterexample:
  "interval scenarioCollector <s latestAvailableHeight scenarioCollector \<and>
   GetSnapshotHeight scenarioCollector (latestAvailableHeight scenarioCollector) True = Inr 4000 \<and>
   latestAvailableHeight scenarioCollector - interval scenarioCollector = 3000 \<and>
   GetSnapshotHeight (scenarioCollector\<lparr> latestAvailableHeight := 500 \<rparr>) 500 True = Inr 0"
  by (simp add: GetSnapshotHeight_def scenarioCollector_def word_sless_alt rem64_def
        signed_modulo_int_def)

text \<open>
  C1 (amended). In the serve role, a target height of 0 or one above the latest
  available height resolves to the latest available height minus the interval when the
  latest height is greater than the interval, and to the latest available height
  otherwise. The subtraction is int64's.
\<close>

theorem GetSnapshotHeight_serve:
  "targetHeight = 0 \<or> latestAvailableHeight collector <s targetHeight \<Longrightarrow>
     GetSnapshotHeight collector targetHeight True =
       Inr (if interval collector <s latestAvailableHeight collector
            then latestAvailableHeight collector - interval collector
            else latestAvailableHeight collector)"
  by (simp add: GetSnapshotHeight_def)

theorem GetSnapshotHeight_serve_witness:
  "((0::int64) = 0 \<or> latestAvailableHeight scenarioCollector <s 0) \<and>
   GetSnapshotHeight scenarioCollector 0 True = Inr 3000 \<and>
   GetSnapshotHeight (scenarioCollector\<lparr> latestAvailableHeight := 500 \<rparr>) 0 True = Inr 500"
  using GetSnapshotHeight_serve[of 0 scenarioCollector]
    GetSnapshotHeight_serve[of 0 "scenarioCollector\<lparr> latestAvailableHeight := 500 \<rparr>"]
  by (simp add: scenarioCollector_def word_sless_alt)

text \<open>
  C4, as stated, fails for \<open>k = 0\<close>, \<open>r = 0\<close>: the target 0 means "the latest" and
  resolves to the latest available height (4000 in the scenario), not to 0. It fails
  for negative \<open>k\<close> too, since Go's remainder has the sign of the dividend: for
  \<open>k = -1\<close>, \<open>r = 300\<close> the target -700 resolves to 0, not to -1000.
\<close>

theorem GetSnapshotHeight_round_down_counterexample:
  "0 <s interval scenarioCollector \<and>
   0 * sint (interval scenarioCollector) + 0 \<le> sint (latestAvailableHeight scenarioCollector) \<and>
   GetSnapshotHeight scenarioCollector (word_of_int (0 * sint (interval scenarioCollector) + 0)) False
     = Inr 4000 \<and>
   (0::int) \<le> 300 \<and> 300 < sint (interval scenarioCollector) \<and>
   (- 1) * sint (interval scenarioCollector) + 300 \<le> sint (latestAvailableHeight scenarioCollector) \<and>
   GetSnapshotHeight scenarioCollector (word_of_int ((- 1) * sint (interval scenarioCollector) + 300)) False
     = Inr 0 \<and>
   (word_of_int ((- 1) * sint (interval scenarioCollector)) :: int64) = - 1000"
  by (simp add: scenarioCollector_def word_sless_alt GetSnapshotHeight_def rem64_def
        signed_modulo_int_def)

text \<open>
  C4 (amended). For every interval > 0, every \<open>k\<close> and every \<open>r\<close> with
  \<open>0 \<le> r < interval\<close> such that the target \<open>k * interval + r\<close> is positive and at most
  the latest available height, \<open>GetSnapshotHeight (k * interval + r) false\<close> is
  \<open>k * interval\<close>.
\<close>

theorem GetSnapshotHeight_round_down:
  fixes k r :: int
  assumes "0 <s interval collector"
    and "0 \<le> r" and "r < sint (interval collector)"
    and "0 < k * sint (interval collector) + r"
    and "k * sint (interval collector) + r \<le> sint (latestAvailableHeight collector)"
  shows "GetSnapshotHeight collector (word_of_int (k * sint (interval collector) + r)) False
           = Inr (word_of_int (k * sint (interval collector)))"
proof -
  define I where "I = sint (interval collector)"
  define T where "T = k * I + r"
  have Ipos: "0 < I" using assms(1) by (simp add: word_sless_alt I_def)
  have Tpos: "0 < T" using assms(4) by (simp add: T_def I_def)
  have Tle: "T \<le> sint (latestAvailableHeight collector)"
    using assms(5) by (simp add: T_def I_def)
  have Tlt: "T < 2 ^ 63"
    using Tle sint64_lt[of "latestAvailableHeight collector"] by linarith
  have sT: "sint (word_of_int T :: int64) = T"
    using Tpos Tlt by (intro sint_word_of_int64) auto
  have nz: "(word_of_int T :: int64) \<noteq> 0"
    using sT Tpos by (metis less_irrefl sint_0)
  have ngt: "\<not> latestAvailableHeight collector <s word_of_int T"
    using Tle sT by (simp add: word_sless_alt)
  have inz: "interval collector \<noteq> 0"
    using Ipos I_def by auto
  have "T mod I = r"
    using assms(2,3) by (simp add: T_def I_def)
  then have "T smod I = r"
    using Tpos Ipos by (simp add: smod_nonneg)
  then have "rem64 (word_of_int T) (interval collector) = word_of_int r"
    by (simp add: rem64_def sT I_def)
  then have "GetSnapshotHeight collector (word_of_int T) False
               = Inr (word_of_int T - word_of_int r)"
    using nz ngt inz by (simp add: GetSnapshotHeight_def)
  also have "(word_of_int T - word_of_int r :: int64) = word_of_int (k * I)"
    by (simp add: T_def)
  finally show ?thesis by (simp add: T_def I_def)
qed

theorem GetSnapshotHeight_round_down_witness:
  "0 <s interval scenarioCollector \<and> (0::int) \<le> 500 \<and> 500 < sint (interval scenarioCollector) \<and>
   0 < 3 * sint (interval scenarioCollector) + 500 \<and>
   3 * sint (interval scenarioCollector) + 500 \<le> sint (latestAvailableHeight scenarioCollector) \<and>
   GetSnapshotHeight scenarioCollector 3500 False = Inr 3000"
  using GetSnapshotHeight_round_down[of scenarioCollector 500 3]
  by (simp add: scenarioCollector_def word_sless_alt)

subsection \<open>Construction\<close>

text \<open>
  C8. When the fetched pool's runtime differs from the expected snapshot-pool runtime,
  construction fails with InvalidRuntimeError and returns no collector. The check comes
  before the config is parsed: the outcome is the same whatever the config decoder
  does, also when it would fail.
\<close>

theorem NewKyveSnapshotCollector_invalid_runtime:
  assumes "GetPool u chain_rest pool_id = Inr poolResponse"
    and "Runtime (Data (Pool poolResponse)) \<noteq> RuntimeTendermintSsync u"
  shows "NewKyveSnapshotCollector (u\<lparr> UnmarshalConfig := decode \<rparr>) pool_id chain_rest =
           Inl (InvalidRuntimeError pool_id (RuntimeTendermintSsync u)
                  (Runtime (Data (Pool poolResponse))))"
  using assms by (simp add: NewKyveSnapshotCollector_def)

theorem NewKyveSnapshotCollector_invalid_runtime_witness:
  "GetPool (simulatedPool (scenarioData\<lparr> Runtime := ''@kyvejs/tendermint-bsync'' \<rparr>) None [] [])
     ''rest'' 0
     = Inr \<lparr> Pool = \<lparr> Data = scenarioData\<lparr> Runtime := ''@kyvejs/tendermint-bsync'' \<rparr> \<rparr> \<rparr> \<and>
   NewKyveSnapshotCollector
     ((simulatedPool (scenarioData\<lparr> Runtime := ''@kyvejs/tendermint-bsync'' \<rparr>) None [] [])
        \<lparr> UnmarshalConfig := (\<lambda>config. Inl ''unexpected end of JSON input'') \<rparr>) 0 ''rest''
     = Inl (InvalidRuntimeError 0 ''@kyvejs/tendermint-ssync'' ''@kyvejs/tendermint-bsync'')"
  using NewKyveSnapshotCollector_invalid_runtime
    [of "simulatedPool (scenarioData\<lparr> Runtime := ''@kyvejs/tendermint-bsync'' \<rparr>) None [] []"
        "''rest''" 0
        "\<lparr> Pool = \<lparr> Data = scenarioData\<lparr> Runtime := ''@kyvejs/tendermint-bsync'' \<rparr> \<rparr> \<rparr>"
        "\<lambda>config. Inl ''unexpected end of JSON input''"]
  by (simp add: pool_defs)

text \<open>
  C2. When the pool is fetched, has the expected runtime, and its config and keys
  parse, construction succeeds whatever the summary is, and the latest available height
  is the current height minus the interval, except when the summary splits on \<open>/\<close> into
  exactly 4 fields whose fourth parses as an integer equal to the current key's chunk
  index plus 1: then it is the current height.
\<close>

theorem latestAvailableHeight_derivation:
  assumes "GetPool u chain_rest pool_id = Inr poolResponse"
    and "Runtime (Data (Pool poolResponse)) = RuntimeTendermintSsync u"
    and "UnmarshalConfig u (Config (Data (Pool poolResponse))) = Inr config"
    and "ParseSnapshotFromKey u (StartKey (Data (Pool poolResponse))) = Inr (startHeight, startIndex)"
    and "ParseSnapshotFromKey u (CurrentKey (Data (Pool poolResponse))) = Inr (currentHeight, chunkIndex)"
  shows "\<exists>collector. NewKyveSnapshotCollector u pool_id chain_rest = Inr collector \<and>
     latestAvailableHeight collector =
       (if length (Split (CurrentSummary (Data (Pool poolResponse))) (CHR ''/'')) = 4 \<and>
           ParseInt (Split (CurrentSummary (Data (Pool poolResponse))) (CHR ''/'') ! 3)
             = Inr (chunkIndex + 1)
        then currentHeight else currentHeight - Interval config)"
  using assms
  by (auto simp add: NewKyveSnapshotCollector_def deriveLatestAvailableHeight_def Let_def
        split: sum.splits)

text \<open>
  The spec's two examples, with interval 50: the summary 100/1/3/4 with the current
  key 100/3 gives 100, with the current key 100/2 it gives 100 - 50; and a summary
  that is not of the 4-field form gives the default without an error.
\<close>

theorem latestAvailableHeight_derivation_witness:
  "NewKyveSnapshotCollector
     (simulatedPool (scenarioData\<lparr> CurrentKey := ''100/3'', CurrentSummary := ''100/1/3/4'' \<rparr>)
        (Some 50) [] []) 2 ''rest''
     = Inr \<lparr> poolId = 2, chainRest = ''rest'', earliestAvailableHeight = 0,
             latestAvailableHeight = 100, interval = 50, totalBundles = 10 \<rparr> \<and>
   NewKyveSnapshotCollector
     (simulatedPool (scenarioData\<lparr> CurrentKey := ''100/2'', CurrentSummary := ''100/1/3/4'' \<rparr>)
        (Some 50) [] []) 2 ''rest''
     = Inr \<lparr> poolId = 2, chainRest = ''rest'', earliestAvailableHeight = 0,
             latestAvailableHeight = 50, interval = 50, totalBundles = 10 \<rparr> \<and>
   NewKyveSnapshotCollector
     (simulatedPool (scenarioData\<lparr> CurrentKey := ''100/3'', CurrentSummary := ''100/x'' \<rparr>)
        (Some 50) [] []) 2 ''rest''
     = Inr \<lparr> poolId = 2, chainRest = ''rest'', earliestAvailableHeight = 0,
             latestAvailableHeight = 50, interval = 50, totalBundles = 10 \<rparr>"
  using latestAvailableHeight_derivation
    [of "simulatedPool (scenarioData\<lparr> CurrentKey := ''100/3'', CurrentSummary := ''100/1/3/4'' \<rparr>)
           (Some 50) [] []"
        "''rest''" 2
        "\<lparr> Pool = \<lparr> Data = scenarioData\<lparr> CurrentKey := ''100/3'', CurrentSummary := ''100/1/3/4'' \<rparr> \<rparr> \<rparr>"
        "\<lparr> Interval = 50 \<rparr>" 0 0 100 3]
  by (simp add: NewKyveSnapshotCollector_def pool_defs parse_defs deriveLatestAvailableHeight_def)

text \<open>
  C9, as stated, fails: the constructor takes both heights from the pool's keys and
  checks neither their order nor their distance. A pool whose first snapshot (height
  1000) is still in progress gives earliest 1000 and latest 0; a pool that starts at
  height 500 gives earliest 500 and latest 4000, 3500 apart with interval 1000.
\<close>

theorem available_heights_counterexample:
  "NewKyveSnapshotCollector
     (simulatedPool (scenarioData\<lparr> StartKey := ''1000/0'', CurrentKey := ''1000/2'',
                                  CurrentSummary := ''1000/1/2/5'' \<rparr>) (Some 1000) [] []) 2 ''rest''
     = Inr \<lparr> poolId = 2, chainRest = ''rest'', earliestAvailableHeight = 1000,
             latestAvailableHeight = 0, interval = 1000, totalBundles = 10 \<rparr> \<and>
   \<not> (1000 :: int64) \<le>s 0 \<and>
   NewKyveSnapshotCollector
     (simulatedPool (scenarioData\<lparr> StartKey := ''500/0'' \<rparr>) (Some 1000) [] []) 2 ''rest''
     = Inr \<lparr> poolId = 2, chainRest = ''rest'', earliestAvailableHeight = 500,
             latestAvailableHeight = 4000, interval = 1000, totalBundles = 10 \<rparr> \<and>
   \<not> sint (1000 :: int64) dvd sint (4000 :: int64) - sint (500 :: int64)"
  by (simp add: NewKyveSnapshotCollector_def pool_defs parse_defs deriveLatestAvailableHeight_def
        word_sle_eq)

lemma deriveLatestAvailableHeight_eq:
  "deriveLatestAvailableHeight summary currentHeight chunkIndex configInterval =
     (if length (Split summary (CHR ''/'')) = 4 \<and>
         ParseInt (Split summary (CHR ''/'') ! 3) = Inr (chunkIndex + 1)
      then currentHeight else currentHeight - configInterval)"
  by (auto simp add: deriveLatestAvailableHeight_def Let_def split: sum.splits)

text \<open>
  C9 (amended). For every successfully constructed collector,
  \<open>earliestAvailableHeight\<close> is the height of the pool's start key and
  \<open>latestAvailableHeight\<close> is the height the constructor derives: the current height
  when the summary marks the current snapshot complete, the current height minus the
  interval (int64's subtraction) otherwise. So
  \<open>earliestAvailableHeight \<le> latestAvailableHeight\<close> with a difference that is a
  multiple of the interval holds exactly when the pool's start height is at most that
  derived height and a multiple of the interval away from it. No method assigns a field
  of the collector, and in the model every operation takes the collector as a value and
  returns none, so what holds at construction holds for the lifetime of the instance.
\<close>

theorem available_heights_ordered:
  assumes new: "NewKyveSnapshotCollector u pool_id chain_rest = Inr collector"
    and pool: "GetPool u chain_rest pool_id = Inr poolResponse"
    and config: "UnmarshalConfig u (Config (Data (Pool poolResponse))) = Inr config"
    and start: "ParseSnapshotFromKey u (StartKey (Data (Pool poolResponse))) = Inr (startHeight, startIndex)"
    and current: "ParseSnapshotFromKey u (CurrentKey (Data (Pool poolResponse))) = Inr (currentHeight, chunkIndex)"
  shows "earliestAvailableHeight collector = startHeight \<and>
         interval collector = Interval config \<and>
         latestAvailableHeight collector =
           (if length (Split (CurrentSummary (Data (Pool poolResponse))) (CHR ''/'')) = 4 \<and>
               ParseInt (Split (CurrentSummary (Data (Pool poolResponse))) (CHR ''/'') ! 3)
                 = Inr (chunkIndex + 1)
            then currentHeight else currentHeight - Interval config) \<and>
         ((earliestAvailableHeight collector \<le>s latestAvailableHeight collector \<and>
           sint (interval collector) dvd
             sint (latestAvailableHeight collector) - sint (earliestAvailableHeight collector))
          \<longleftrightarrow>
          (if length (Split (CurrentSummary (Data (Pool poolResponse))) (CHR ''/'')) = 4 \<and>
              ParseInt (Split (CurrentSummary (Data (Pool poolResponse))) (CHR ''/'') ! 3)
                = Inr (chunkIndex + 1)
           then sint startHeight \<le> sint currentHeight \<and>
                sint (Interval config) dvd sint currentHeight - sint startHeight
           else sint startHeight \<le> sint (currentHeight - Interval config) \<and>
                sint (Interval config) dvd
                  sint (currentHeight - Interval config) - sint startHeight))"
proof -
  have runtime: "Runtime (Data (Pool poolResponse)) = RuntimeTendermintSsync u"
    using new pool
    by (auto simp add: NewKyveSnapshotCollector_def Let_def split: sum.splits if_splits)
  have
    "collector =
       \<lparr> poolId = pool_id, chainRest = chain_rest, earliestAvailableHeight = startHeight,
         latestAvailableHeight =
           deriveLatestAvailableHeight (CurrentSummary (Data (Pool poolResponse)))
             currentHeight chunkIndex (Interval config),
         interval = Interval config,
         totalBundles = TotalBundles (Data (Pool poolResponse)) \<rparr>"
    using new pool config start current runtime
    by (simp add: NewKyveSnapshotCollector_def Let_def)
  then have
    fields: "earliestAvailableHeight collector = startHeight"
      "interval collector = Interval config"
      "latestAvailableHeight collector =
         deriveLatestAvailableHeight (CurrentSummary (Data (Pool poolResponse)))
           currentHeight chunkIndex (Interval config)"
    by simp_all
  show ?thesis
    unfolding fields deriveLatestAvailableHeight_eq
    by (simp add: word_sle_eq)
qed

text \<open>
  A pool whose first snapshot (height 1000, five chunks) has just been completed:
  earliest and latest are both 1000. And the scenario: earliest 0, latest 4000.
\<close>

theorem available_heights_ordered_witness:
  "NewKyveSnapshotCollector
     (simulatedPool (scenarioData\<lparr> StartKey := ''1000/0'', CurrentKey := ''1000/4'',
                                  CurrentSummary := ''1000/1/4/5'' \<rparr>) (Some 1000) [] []) 2 ''rest''
     = Inr \<lparr> poolId = 2, chainRest = ''rest'', earliestAvailableHeight = 1000,
             latestAvailableHeight = 1000, interval = 1000, totalBundles = 10 \<rparr> \<and>
   (1000 :: int64) \<le>s 1000 \<and>
   sint (1000 :: int64) dvd sint (1000 :: int64) - sint (1000 :: int64) \<and>
   NewKyveSnapshotCollector scenarioPool 2 ''rest'' = Inr scenarioCollector \<and>
   earliestAvailableHeight scenarioCollector \<le>s latestAvailableHeight scenarioCollector \<and>
   sint (interval scenarioCollector) dvd
     sint (latestAvailableHeight scenarioCollector) - sint (earliestAvailableHeight scenarioCollector)"
  using available_heights_ordered
    [of "simulatedPool (scenarioData\<lparr> StartKey := ''1000/0'', CurrentKey := ''1000/4'',
                                      CurrentSummary := ''1000/1/4/5'' \<rparr>) (Some 1000) [] []"
        2 "''rest''"
        "\<lparr> poolId = 2, chainRest = ''rest'', earliestAvailableHeight = 1000,
           latestAvailableHeight = 1000, interval = 1000, totalBundles = 10 \<rparr>"
        "\<lparr> Pool = \<lparr> Data = scenarioData\<lparr> StartKey := ''1000/0'', CurrentKey := ''1000/4'',
                                          CurrentSummary := ''1000/1/4/5'' \<rparr> \<rparr> \<rparr>"
        "\<lparr> Interval = 1000 \<rparr>" 1000 0 1000 4]
    available_heights_ordered
    [of scenarioPool 2 "''rest''" scenarioCollector "\<lparr> Pool = \<lparr> Data = scenarioData \<rparr> \<rparr>"
        "\<lparr> Interval = 1000 \<rparr>" 0 0 5000 2]
    scenario_construct
  by (simp add: NewKyveSnapshotCollector_def scenarioPool_def scenarioCollector_def pool_defs
        parse_defs deriveLatestAvailableHeight_def word_sle_eq)

text \<open>
  C10. A pool config whose interval is 0 is accepted: construction succeeds with
  interval 0. For that collector every call with a target height above 0 and at most
  the latest available height divides by zero and panics, in either role. On every
  collector, GetSnapshotHeight returns for all arguments exactly when the interval is
  not 0.
\<close>

theorem zero_interval_panics:
  assumes "GetPool u chain_rest pool_id = Inr poolResponse"
    and "Runtime (Data (Pool poolResponse)) = RuntimeTendermintSsync u"
    and "UnmarshalConfig u (Config (Data (Pool poolResponse))) = Inr config"
    and "Interval config = 0"
    and "ParseSnapshotFromKey u (StartKey (Data (Pool poolResponse))) = Inr (startHeight, startIndex)"
    and "ParseSnapshotFromKey u (CurrentKey (Data (Pool poolResponse))) = Inr (currentHeight, chunkIndex)"
  shows "(\<exists>collector. NewKyveSnapshotCollector u pool_id chain_rest = Inr collector \<and>
            interval collector = 0 \<and>
            (\<forall>targetHeight isServeSnapshot.
               0 <s targetHeight \<and> targetHeight \<le>s latestAvailableHeight collector \<longrightarrow>
               GetSnapshotHeight collector targetHeight isServeSnapshot = Inl DivideByZero)) \<and>
         (\<forall>c. (\<forall>targetHeight isServeSnapshot.
                  \<exists>height. GetSnapshotHeight c targetHeight isServeSnapshot = Inr height)
               \<longleftrightarrow> interval c \<noteq> 0)"
proof
  have panics: "GetSnapshotHeight c t s = Inl DivideByZero"
    if "interval c = 0" "0 <s t" "t \<le>s latestAvailableHeight c"
    for c :: KyveSnapshotCollector and t s
  proof -
    have "t \<noteq> 0" using that(2) by auto
    moreover have "\<not> latestAvailableHeight c <s t" using that(3) by (simp add: signed.not_less)
    ultimately show ?thesis using that(1) by (simp add: GetSnapshotHeight_def)
  qed
  have "\<exists>collector. NewKyveSnapshotCollector u pool_id chain_rest = Inr collector \<and>
          interval collector = 0"
    using assms by (simp add: NewKyveSnapshotCollector_def Let_def)
  then obtain collector where
    c: "NewKyveSnapshotCollector u pool_id chain_rest = Inr collector" "interval collector = 0"
    by blast
  then show "\<exists>collector. NewKyveSnapshotCollector u pool_id chain_rest = Inr collector \<and>
            interval collector = 0 \<and>
            (\<forall>targetHeight isServeSnapshot.
               0 <s targetHeight \<and> targetHeight \<le>s latestAvailableHeight collector \<longrightarrow>
               GetSnapshotHeight collector targetHeight isServeSnapshot = Inl DivideByZero)"
    using panics by blast
next
  show "\<forall>c. (\<forall>targetHeight isServeSnapshot.
                  \<exists>height. GetSnapshotHeight c targetHeight isServeSnapshot = Inr height)
               \<longleftrightarrow> interval c \<noteq> 0"
  proof (rule allI, rule iffI)
    fix c :: KyveSnapshotCollector
    assume total: "\<forall>targetHeight isServeSnapshot.
                  \<exists>height. GetSnapshotHeight c targetHeight isServeSnapshot = Inr height"
    show "interval c \<noteq> 0"
    proof
      assume zero: "interval c = 0"
      define t where "t = (if latestAvailableHeight c = 0 then - 1 else latestAvailableHeight c)"
      have "t \<noteq> 0" by (simp add: t_def)
      moreover have "\<not> latestAvailableHeight c <s t" by (simp add: t_def)
      ultimately have "GetSnapshotHeight c t False = Inl DivideByZero"
        using zero by (simp add: GetSnapshotHeight_def)
      then show False using total by (metis Inl_Inr_False)
    qed
  next
    fix c :: KyveSnapshotCollector
    assume "interval c \<noteq> 0"
    then show "\<forall>targetHeight isServeSnapshot.
                  \<exists>height. GetSnapshotHeight c targetHeight isServeSnapshot = Inr height"
      by (simp add: GetSnapshotHeight_def)
  qed
qed

theorem zero_interval_panics_witness:
  "NewKyveSnapshotCollector (simulatedPool scenarioData (Some 0) [] []) 2 ''rest''
     = Inr (scenarioCollector\<lparr> latestAvailableHeight := 5000, interval := 0 \<rparr>) \<and>
   0 <s (4500 :: int64) \<and>
   4500 \<le>s latestAvailableHeight (scenarioCollector\<lparr> latestAvailableHeight := 5000, interval := 0 \<rparr>) \<and>
   GetSnapshotHeight (scenarioCollector\<lparr> latestAvailableHeight := 5000, interval := 0 \<rparr>) 4500 False
     = Inl DivideByZero"
  using zero_interval_panics
    [of "simulatedPool scenarioData (Some 0) [] []" "''rest''" 2
        "\<lparr> Pool = \<lparr> Data = scenarioData \<rparr> \<rparr>" "\<lparr> Interval = 0 \<rparr>" 0 0 5000 2]
  by (simp add: NewKyveSnapshotCollector_def scenarioCollector_def pool_defs parse_defs
        deriveLatestAvailableHeight_def GetSnapshotHeight_def word_sless_alt word_sle_eq)

subsection \<open>Bundles\<close>

text \<open>
  C7. When the bundle is fetched, its payload retrieved and decoded to a sequence of
  data items: if the sequence has exactly one item, GetSnapshotFromBundleId returns the
  item and DownloadChunkFromBundleId its chunk bytes; with any other number of items
  (none, or more than one) both fail with MalformedBundleError.
\<close>

theorem one_item_per_bundle:
  assumes "GetFinalizedBundleById u (chainRest collector) (poolId collector) bundleId
             = Inr chunkBundleFinalized"
    and "GetDataFromFinalizedBundle u chunkBundleFinalized = Inr data"
    and "UnmarshalBundle u data = Inr bundle"
  shows "GetSnapshotFromBundleId u collector bundleId =
           (case bundle of [item] \<Rightarrow> Inr item | _ \<Rightarrow> Inl MalformedBundleError) \<and>
         DownloadChunkFromBundleId u collector bundleId =
           (case bundle of [item] \<Rightarrow> Inr (Chunk (Value item)) | _ \<Rightarrow> Inl MalformedBundleError)"
  using assms
  by (simp add: GetSnapshotFromBundleId_def DownloadChunkFromBundleId_def split: list.splits)

theorem one_item_per_bundle_witness:
  "GetSnapshotFromBundleId
     (simulatedPool scenarioData (Some 1000) scenarioBundles [\<lparr> Value = \<lparr> Chunk = [1, 2, 3] \<rparr> \<rparr>])
     scenarioCollector 6 = Inr \<lparr> Value = \<lparr> Chunk = [1, 2, 3] \<rparr> \<rparr> \<and>
   DownloadChunkFromBundleId
     (simulatedPool scenarioData (Some 1000) scenarioBundles [\<lparr> Value = \<lparr> Chunk = [1, 2, 3] \<rparr> \<rparr>])
     scenarioCollector 6 = Inr [1, 2, 3] \<and>
   GetSnapshotFromBundleId (simulatedPool scenarioData (Some 1000) scenarioBundles [])
     scenarioCollector 6 = Inl MalformedBundleError \<and>
   DownloadChunkFromBundleId
     (simulatedPool scenarioData (Some 1000) scenarioBundles
        [\<lparr> Value = \<lparr> Chunk = [1] \<rparr> \<rparr>, \<lparr> Value = \<lparr> Chunk = [2] \<rparr> \<rparr>])
     scenarioCollector 6 = Inl MalformedBundleError"
  using one_item_per_bundle
    [of "simulatedPool scenarioData (Some 1000) scenarioBundles [\<lparr> Value = \<lparr> Chunk = [1, 2, 3] \<rparr> \<rparr>]"
        scenarioCollector 6 "bundleTo ''4000/0''" "map of_char ''4000/0''"
        "[\<lparr> Value = \<lparr> Chunk = [1, 2, 3] \<rparr> \<rparr>]"]
    one_item_per_bundle
    [of "simulatedPool scenarioData (Some 1000) scenarioBundles []"
        scenarioCollector 6 "bundleTo ''4000/0''" "map of_char ''4000/0''" "[]"]
    one_item_per_bundle
    [of "simulatedPool scenarioData (Some 1000) scenarioBundles
           [\<lparr> Value = \<lparr> Chunk = [1] \<rparr> \<rparr>, \<lparr> Value = \<lparr> Chunk = [2] \<rparr> \<rparr>]"
        scenarioCollector 6 "bundleTo ''4000/0''" "map of_char ''4000/0''"
        "[\<lparr> Value = \<lparr> Chunk = [1] \<rparr> \<rparr>, \<lparr> Value = \<lparr> Chunk = [2] \<rparr> \<rparr>]"]
  by (simp add: pool_defs scenarioCollector_def word_sle_eq)

text \<open>
  C6. When the requested height is the latest available height, the last bundle
  (id \<open>totalBundles - 1\<close>) is fetched first. If its key decodes to the requested height
  with chunk index \<open>p\<close>, the result is \<open>(totalBundles - 1) - p\<close>, whatever the other
  bundles are: the binary search does not run. If the decoded height differs, the
  result is that of the binary search over the ids 0 to \<open>totalBundles - 1\<close>.
\<close>

theorem latest_height_fast_path:
  assumes "height = latestAvailableHeight collector"
    and "GetFinalizedBundleById u (chainRest collector) (poolId collector)
           (totalBundles collector - 1) = Inr lastBundle"
    and "ParseSnapshotFromKey u (ToKey lastBundle) = Inr (h, p)"
  shows "FindSnapshotBundleIdForHeight u collector height =
           (if h = height then Some (Inr ((totalBundles collector - 1) - p))
            else searchLoop u collector height 0 (totalBundles collector - 1))"
  using assms by (simp add: FindSnapshotBundleIdForHeight_def)

theorem latest_height_fast_path_witness:
  "(4000 :: int64) = latestAvailableHeight scenarioCollector \<and>
   GetFinalizedBundleById scenarioPool (chainRest scenarioCollector) (poolId scenarioCollector)
     (totalBundles scenarioCollector - 1) = Inr (bundleTo ''4000/3'') \<and>
   ParseSnapshotFromKey scenarioPool (ToKey (bundleTo ''4000/3'')) = Inr (4000, 3) \<and>
   FindSnapshotBundleIdForHeight scenarioPool scenarioCollector 4000 = Some (Inr 6)"
  using latest_height_fast_path
    [of 4000 scenarioCollector scenarioPool "bundleTo ''4000/3''" 4000 3]
  by (simp add: scenarioPool_def scenarioCollector_def pool_defs parse_defs word_sle_eq)

subsection \<open>The binary search\<close>

lemma searchLoop_exit:
  "\<not> low \<le>s high \<Longrightarrow> searchLoop u c h low high = Some (Inl (HeightNotFoundError h))"
  by (subst searchLoop.simps) simp

lemma searchLoop_probe:
  assumes "low \<le>s high"
    and "GetFinalizedBundleById u (chainRest c) (poolId c) (quo64 (low + high) 2) = Inr b"
    and "ParseSnapshotFromKey u (ToKey b) = Inr (hm, cm)"
  shows "searchLoop u c h low high =
     (if hm <s h then searchLoop u c h (quo64 (low + high) 2 + 1) high
      else if h <s hm then searchLoop u c h low (quo64 (low + high) 2 - 1)
      else Some (Inr (quo64 (low + high) 2 - cm)))"
  using assms by (subst searchLoop.simps) (simp add: Let_def)

lemma served_nth:
  assumes "i < length bundles" "length bundles \<le> 2 ^ 62"
  shows "servedBundles bundles cr pid (of_nat i) = Inr (bundles ! i)"
proof -
  have "i < 2 ^ 63" using assms by simp
  then have "sint (of_nat i :: int64) = int i" by (rule sint_of_nat64)
  then show ?thesis using assms by (simp add: servedBundles_def word_sle_eq)
qed

lemma served_minus_one:
  "servedBundles bundles cr pid (- 1) = Inl ''bundle not found''"
  by (simp add: servedBundles_def)

lemma parsed_nth:
  assumes "map (ParseSnapshotFromKey u \<circ> ToKey) bundles = map Inr keys" "i < length bundles"
  shows "ParseSnapshotFromKey u (ToKey (bundles ! i)) = Inr (keys ! i)"
proof -
  have len: "length bundles = length keys" using assms(1) by (metis length_map)
  then have "map (ParseSnapshotFromKey u \<circ> ToKey) bundles ! i = map Inr keys ! i"
    using assms by simp
  then show ?thesis using assms(2) len by simp
qed

text \<open>One probe of the loop on a served sequence, on indices.\<close>

lemma searchLoop_step:
  assumes fetch: "GetFinalizedBundleById u = servedBundles bundles"
    and parse: "map (ParseSnapshotFromKey u \<circ> ToKey) bundles = map Inr keys"
    and bound: "length bundles \<le> 2 ^ 62"
    and range: "lo < hi1" "hi1 \<le> length bundles"
    and m: "m = (lo + hi1 - 1) div 2"
  shows "searchLoop u c h (of_nat lo) (of_nat hi1 - 1) =
     (if fst (keys ! m) <s h then searchLoop u c h (of_nat (Suc m)) (of_nat hi1 - 1)
      else if h <s fst (keys ! m) then searchLoop u c h (of_nat lo) (of_nat m - 1)
      else Some (Inr (of_nat m - snd (keys ! m))))"
proof -
  have hi: "hi1 \<le> 2 ^ 62" using bound range by linarith
  have m_lt: "m < length bundles" using range by (simp add: m)
  have mid: "quo64 (of_nat lo + (of_nat hi1 - 1)) 2 = (of_nat m :: int64)"
    unfolding m using range(1) hi by (rule mid_of_nat)
  have le: "(of_nat lo :: int64) \<le>s of_nat hi1 - 1"
    using range(1) hi by (simp add: low_le_high_iff)
  have f: "GetFinalizedBundleById u (chainRest c) (poolId c)
             (quo64 (of_nat lo + (of_nat hi1 - 1)) 2) = Inr (bundles ! m)"
    using m_lt bound by (simp add: mid fetch served_nth)
  have p: "ParseSnapshotFromKey u (ToKey (bundles ! m)) = Inr (fst (keys ! m), snd (keys ! m))"
    using parsed_nth[OF parse m_lt] by simp
  have suc: "(of_nat m + 1 :: int64) = of_nat (Suc m)" by simp
  show ?thesis
    using searchLoop_probe[OF le f p, of h] unfolding mid suc .
qed

text \<open>
  The loop ends on every served sequence of at most \<open>2 ^ 62\<close> bundles. A height that no
  key of the range carries is not found, sorted or not.
\<close>

lemma searchLoop_absent:
  assumes fetch: "GetFinalizedBundleById u = servedBundles bundles"
    and parse: "map (ParseSnapshotFromKey u \<circ> ToKey) bundles = map Inr keys"
    and bound: "length bundles \<le> 2 ^ 62"
    and range: "lo \<le> hi1" "hi1 \<le> length bundles"
    and absent: "\<And>i. lo \<le> i \<Longrightarrow> i < hi1 \<Longrightarrow> fst (keys ! i) \<noteq> h"
  shows "searchLoop u c h (of_nat lo) (of_nat hi1 - 1) = Some (Inl (HeightNotFoundError h))"
  using range absent
proof (induction "hi1 - lo" arbitrary: lo hi1 rule: less_induct)
  case less
  show ?case
  proof (cases "lo < hi1")
    case False
    then have "\<not> (of_nat lo :: int64) \<le>s of_nat hi1 - 1"
      using less.prems(1,2) bound by (simp add: low_le_high_iff)
    then show ?thesis by (rule searchLoop_exit)
  next
    case True
    define m where "m = (lo + hi1 - 1) div 2"
    have m_range: "lo \<le> m" "m < hi1" using True by (simp_all add: m_def)
    have step: "searchLoop u c h (of_nat lo) (of_nat hi1 - 1) =
       (if fst (keys ! m) <s h then searchLoop u c h (of_nat (Suc m)) (of_nat hi1 - 1)
        else if h <s fst (keys ! m) then searchLoop u c h (of_nat lo) (of_nat m - 1)
        else Some (Inr (of_nat m - snd (keys ! m))))"
      by (rule searchLoop_step[OF fetch parse bound True less.prems(2) m_def])
    have ne: "fst (keys ! m) \<noteq> h" using less.prems(3) m_range by simp
    have right: "searchLoop u c h (of_nat (Suc m)) (of_nat hi1 - 1)
                   = Some (Inl (HeightNotFoundError h))"
      using m_range less.prems by (intro less.hyps) auto
    have left: "searchLoop u c h (of_nat lo) (of_nat m - 1)
                  = Some (Inl (HeightNotFoundError h))"
      using m_range less.prems by (intro less.hyps) auto
    have "fst (keys ! m) <s h \<or> h <s fst (keys ! m)"
      using ne signed.less_linear[of "fst (keys ! m)" h] by blast
    then show ?thesis using step left right by auto
  qed
qed

text \<open>
  On non-decreasing heights, a height that some key of the range carries is found at
  one of its keys \<open>m\<close>, and the result walks back from \<open>m\<close> by the chunk index there.
\<close>

lemma searchLoop_found:
  assumes fetch: "GetFinalizedBundleById u = servedBundles bundles"
    and parse: "map (ParseSnapshotFromKey u \<circ> ToKey) bundles = map Inr keys"
    and bound: "length bundles \<le> 2 ^ 62"
    and sorted: "sorted (map (sint \<circ> fst) keys)"
    and range: "lo \<le> hi1" "hi1 \<le> length bundles"
    and present: "\<exists>i. lo \<le> i \<and> i < hi1 \<and> fst (keys ! i) = h"
  shows "\<exists>m. lo \<le> m \<and> m < hi1 \<and> fst (keys ! m) = h \<and>
           searchLoop u c h (of_nat lo) (of_nat hi1 - 1) = Some (Inr (of_nat m - snd (keys ! m)))"
  using range present
proof (induction "hi1 - lo" arbitrary: lo hi1 rule: less_induct)
  case less
  from less.prems(3) obtain i where i: "lo \<le> i" "i < hi1" "fst (keys ! i) = h" by blast
  then have True: "lo < hi1" by simp
  have len: "length keys = length bundles" using parse by (metis length_map)
  define m where "m = (lo + hi1 - 1) div 2"
  have m_range: "lo \<le> m" "m < hi1" using True by (simp_all add: m_def)
  have step: "searchLoop u c h (of_nat lo) (of_nat hi1 - 1) =
     (if fst (keys ! m) <s h then searchLoop u c h (of_nat (Suc m)) (of_nat hi1 - 1)
      else if h <s fst (keys ! m) then searchLoop u c h (of_nat lo) (of_nat m - 1)
      else Some (Inr (of_nat m - snd (keys ! m))))"
    by (rule searchLoop_step[OF fetch parse bound True less.prems(2) m_def])
  have mono: "\<And>a b. a \<le> b \<Longrightarrow> b < length keys \<Longrightarrow> sint (fst (keys ! a)) \<le> sint (fst (keys ! b))"
    using sorted_nth_mono[OF sorted] by (simp add: o_def)
  consider (lt) "fst (keys ! m) <s h" | (gt) "h <s fst (keys ! m)" | (eq) "fst (keys ! m) = h"
    using signed.less_linear[of "fst (keys ! m)" h] by blast
  then show ?case
  proof cases
    case lt
    have "m < i"
    proof (rule ccontr)
      assume "\<not> m < i"
      then have "sint (fst (keys ! i)) \<le> sint (fst (keys ! m))"
        using mono[of i m] m_range less.prems(2) len by simp
      then show False using lt i(3) by (simp add: word_sless_alt)
    qed
    then have "Suc m \<le> i \<and> i < hi1 \<and> fst (keys ! i) = h" using i by simp
    then have ex: "\<exists>i. Suc m \<le> i \<and> i < hi1 \<and> fst (keys ! i) = h" by (rule exI)
    have "hi1 - Suc m < hi1 - lo" using m_range by simp
    moreover have "Suc m \<le> hi1" using m_range by simp
    ultimately have "\<exists>k. Suc m \<le> k \<and> k < hi1 \<and> fst (keys ! k) = h \<and>
        searchLoop u c h (of_nat (Suc m)) (of_nat hi1 - 1) = Some (Inr (of_nat k - snd (keys ! k)))"
      using less.prems(2) ex by (rule less.hyps)
    then obtain k where k: "Suc m \<le> k" "k < hi1" "fst (keys ! k) = h"
      "searchLoop u c h (of_nat (Suc m)) (of_nat hi1 - 1) = Some (Inr (of_nat k - snd (keys ! k)))"
      by blast
    have "searchLoop u c h (of_nat lo) (of_nat hi1 - 1) = Some (Inr (of_nat k - snd (keys ! k)))"
      using step lt k(4) by simp
    moreover have "lo \<le> k" using k(1) m_range by simp
    ultimately show ?thesis using k(2,3) by blast
  next
    case gt
    have "i < m"
    proof (rule ccontr)
      assume "\<not> i < m"
      then have "sint (fst (keys ! m)) \<le> sint (fst (keys ! i))"
        using mono[of m i] i less.prems(2) len by simp
      then show False using gt i(3) by (simp add: word_sless_alt)
    qed
    then have "lo \<le> i \<and> i < m \<and> fst (keys ! i) = h" using i by simp
    then have ex: "\<exists>i. lo \<le> i \<and> i < m \<and> fst (keys ! i) = h" by (rule exI)
    have "m - lo < hi1 - lo" using m_range by simp
    moreover have "m \<le> length bundles" using m_range less.prems(2) by simp
    ultimately have "\<exists>k. lo \<le> k \<and> k < m \<and> fst (keys ! k) = h \<and>
        searchLoop u c h (of_nat lo) (of_nat m - 1) = Some (Inr (of_nat k - snd (keys ! k)))"
      using m_range(1) ex by (intro less.hyps)
    then obtain k where k: "lo \<le> k" "k < m" "fst (keys ! k) = h"
      "searchLoop u c h (of_nat lo) (of_nat m - 1) = Some (Inr (of_nat k - snd (keys ! k)))"
      by blast
    have "\<not> fst (keys ! m) <s h" using gt by (simp add: word_sless_alt)
    then have "searchLoop u c h (of_nat lo) (of_nat hi1 - 1) = Some (Inr (of_nat k - snd (keys ! k)))"
      using step gt k(4) by simp
    moreover have "k < hi1" using k(2) m_range by simp
    ultimately show ?thesis using k(1,3) by blast
  next
    case eq
    then have "\<not> fst (keys ! m) <s h" "\<not> h <s fst (keys ! m)"
      by (simp_all add: word_sless_alt)
    then have "searchLoop u c h (of_nat lo) (of_nat hi1 - 1) = Some (Inr (of_nat m - snd (keys ! m)))"
      using step by simp
    then show ?thesis using eq m_range by blast
  qed
qed

text \<open>
  Without the bound the loop need not end. When \<open>high\<close> is the largest int64, the
  condition \<open>low \<le> high\<close> always holds; on a remote that answers every id with a
  height below the requested one, each probe moves \<open>low\<close> and the loop never returns.
  A collector whose \<open>totalBundles\<close> is the smallest int64 starts there, since
  \<open>totalBundles - 1\<close> wraps.
\<close>

lemma sle_max64: "low \<le>s (9223372036854775807 :: int64)"
  using sint64_lt[of low] by (simp add: word_sle_eq)

lemma min_pred64: "(- 9223372036854775809 :: int64) = 9223372036854775807"
  by transfer simp

lemma searchLoop_endless_step:
  assumes "searchLoop u c h low high = Some y"
  shows "\<not> (u = endlessPool \<and> h = 1 \<and> high = 9223372036854775807)"
proof (rule searchLoop.raw_induct
    [where P = "\<lambda>u c h low high y. \<not> (u = endlessPool \<and> h = 1 \<and> high = 9223372036854775807)",
     OF _ assms], goal_cases)
  case (1 f u collector height low high ua)
  show ?case
  proof
    assume a: "u = endlessPool \<and> height = 1 \<and> high = 9223372036854775807"
    then have "f u collector height (quo64 (low + high) 2 + 1) high = Some ua"
      using "1"(2) sle_max64[of low]
      by (simp add: endlessPool_def simulatedPool_def bundleTo_def parse_defs Let_def
            word_sless_alt)
    then show False using "1"(1) a by blast
  qed
qed

lemma searchLoop_endless:
  "searchLoop endlessPool c 1 low 9223372036854775807 = None"
  using searchLoop_endless_step[of endlessPool c 1 low 9223372036854775807]
  by (cases "searchLoop endlessPool c 1 low 9223372036854775807") auto

lemma FindSnapshotBundleIdForHeight_endless:
  "FindSnapshotBundleIdForHeight endlessPool
     (scenarioCollector\<lparr> totalBundles := - 9223372036854775808 \<rparr>) 1 = None"
  using searchLoop_endless[of "scenarioCollector\<lparr> totalBundles := - 9223372036854775808 \<rparr>" 0]
  by (simp add: FindSnapshotBundleIdForHeight_def scenarioCollector_def min_pred64)

text \<open>Contiguous chunk indices, by position.\<close>

lemma chunksContiguous_nth:
  "chunksContiguous ks \<Longrightarrow> Suc i < length ks \<Longrightarrow>
     snd (ks ! Suc i) = (if fst (ks ! Suc i) = fst (ks ! i) then snd (ks ! i) + 1 else 0)"
proof (induction ks arbitrary: i rule: chunksContiguous.induct)
  case (1 k1 k2 ks)
  show ?case
  proof (cases i)
    case 0
    then show ?thesis using "1.prems" by simp
  next
    case (Suc j)
    then show ?thesis using "1.prems" "1.IH"[of j] by simp
  qed
qed simp_all

text \<open>
  Walking back from a key by its chunk index \<open>q\<close> reaches chunk 0 of the same height,
  and the key before that one, if any, has another height.
\<close>

lemma run_start:
  assumes "chunksContiguous ks" "startsAtChunkZero ks" "i < length ks"
  shows "\<exists>q\<le>i. snd (ks ! i) = of_nat q \<and> ks ! (i - q) = (fst (ks ! i), 0) \<and>
           (i - q = 0 \<or> fst (ks ! (i - q - 1)) \<noteq> fst (ks ! i))"
  using assms(3)
proof (induction i)
  case 0
  then have "snd (ks ! 0) = 0"
    using assms(2) by (cases ks) (simp_all add: startsAtChunkZero_def)
  then have "(0::nat) \<le> 0 \<and> snd (ks ! 0) = of_nat 0 \<and> ks ! (0 - 0) = (fst (ks ! 0), 0) \<and>
      (0 - 0 = (0::nat) \<or> fst (ks ! (0 - 0 - 1)) \<noteq> fst (ks ! 0))"
    by (simp add: prod_eq_iff)
  then show ?case by (rule exI)
next
  case (Suc i)
  have "i < length ks" using Suc.prems by simp
  from Suc.IH[OF this] obtain q where q: "q \<le> i" "snd (ks ! i) = of_nat q"
    "ks ! (i - q) = (fst (ks ! i), 0)"
    "i - q = 0 \<or> fst (ks ! (i - q - 1)) \<noteq> fst (ks ! i)" by blast
  have nxt: "snd (ks ! Suc i) = (if fst (ks ! Suc i) = fst (ks ! i) then snd (ks ! i) + 1 else 0)"
    using chunksContiguous_nth[OF assms(1) Suc.prems] .
  show ?case
  proof (cases "fst (ks ! Suc i) = fst (ks ! i)")
    case True
    have "Suc q \<le> Suc i" using q(1) by simp
    moreover have "snd (ks ! Suc i) = of_nat (Suc q)" using nxt True q(2) by simp
    moreover have "ks ! (Suc i - Suc q) = (fst (ks ! Suc i), 0)" using q(3) True by simp
    moreover have "Suc i - Suc q = 0 \<or> fst (ks ! (Suc i - Suc q - 1)) \<noteq> fst (ks ! Suc i)"
      using q(4) True by simp
    ultimately show ?thesis by blast
  next
    case False
    have "(0::nat) \<le> Suc i" by simp
    moreover have "snd (ks ! Suc i) = of_nat 0" using nxt False by simp
    moreover have "ks ! (Suc i - 0) = (fst (ks ! Suc i), 0)"
      using nxt False by (simp add: prod_eq_iff)
    moreover have "fst (ks ! (Suc i - 0 - 1)) \<noteq> fst (ks ! Suc i)" using False by simp
    ultimately show ?thesis by blast
  qed
qed

lemma first_of_run:
  assumes contiguous: "chunksContiguous keys" "startsAtChunkZero keys"
    and sorted: "sorted (map (sint \<circ> fst) keys)"
    and m: "m < length keys" "fst (keys ! m) = h"
  shows "\<exists>j<length keys. (of_nat m - snd (keys ! m) :: int64) = of_nat j \<and> keys ! j = (h, 0) \<and>
           (j = 0 \<or> fst (keys ! (j - 1)) <s h)"
proof -
  from run_start[OF contiguous m(1)] obtain q where q: "q \<le> m" "snd (keys ! m) = of_nat q"
    "keys ! (m - q) = (fst (keys ! m), 0)"
    "m - q = 0 \<or> fst (keys ! (m - q - 1)) \<noteq> fst (keys ! m)" by blast
  have "(of_nat m - snd (keys ! m) :: int64) = of_nat (m - q)"
    using q(1,2) by simp
  moreover have "m - q < length keys" using m(1) by simp
  moreover have "keys ! (m - q) = (h, 0)" using q(3) m(2) by simp
  moreover have "m - q = 0 \<or> fst (keys ! (m - q - 1)) <s h"
  proof (cases "m - q = 0")
    case False
    then have ne: "fst (keys ! (m - q - 1)) \<noteq> h" using q(4) m(2) by simp
    have "sint (fst (keys ! (m - q - 1))) \<le> sint (fst (keys ! m))"
      using sorted_nth_mono[OF sorted, of "m - q - 1" m] m(1) by (simp add: o_def)
    then have "fst (keys ! (m - q - 1)) \<le>s h" using m(2) by (simp add: word_sle_eq)
    then show ?thesis using ne by (simp add: signed.less_le)
  qed simp
  ultimately show ?thesis by blast
qed

text \<open>
  C3, as stated, fails: non-decreasing heights are not enough, since the result is the
  probed id minus the chunk index found there. In the pool with the keys 1000/0,
  1000/5, 2000/0 the search for height 1000 probes id 1 and returns 1 - 5 = -4, which
  is no bundle id, although bundle 0 has the key (1000, 0). And on a pool without
  bundles the request for the latest available height, which no bundle has, fetches
  bundle id -1 and fails with that fetch's error, not with HeightNotFoundError.
\<close>

theorem FindSnapshotBundleIdForHeight_counterexample:
  "GetFinalizedBundleById gapPool = servedBundles gapBundles \<and>
   map (ParseSnapshotFromKey gapPool \<circ> ToKey) gapBundles = map Inr [(1000, 0), (1000, 5), (2000, 0)] \<and>
   sorted (map (sint \<circ> fst) [(1000 :: int64, 0 :: int64), (1000, 5), (2000, 0)]) \<and>
   totalBundles gapCollector = of_nat (length gapBundles) \<and>
   FindSnapshotBundleIdForHeight gapPool gapCollector 1000 = Some (Inr (- 4)) \<and>
   FindSnapshotBundleIdForHeight
     (simulatedPool (scenarioData\<lparr> TotalBundles := 0 \<rparr>) (Some 1000) [] [])
     (scenarioCollector\<lparr> totalBundles := 0 \<rparr>) 4000
     = Some (Inl (GetBundleFailed (- 1) ''bundle not found''))"
proof -
  have "searchLoop gapPool gapCollector 1000 0 2 = Some (Inr (- 4))"
    by (subst searchLoop.simps)
      (simp add: gapPool_def gapCollector_def gapBundles_def pool_defs parse_defs quo64_def
         word_sle_eq word_sless_alt signed_divide_int_def)
  then show ?thesis
    by (simp add: FindSnapshotBundleIdForHeight_def gapPool_def gapCollector_def gapBundles_def
          scenarioCollector_def pool_defs parse_defs)
qed

text \<open>
  C3 (amended). For every sequence of at most \<open>2 ^ 62\<close> bundles served by the remote,
  whose keys decode, whose heights are non-decreasing in the bundle id and whose chunk
  indices are contiguous (they start at 0 and count up within a height), and for a
  collector whose \<open>totalBundles\<close> is the length of the sequence:
  for every height \<open>h\<close> present in the sequence, \<open>FindSnapshotBundleIdForHeight h\<close>
  returns a bundle id \<open>j\<close> whose key decodes to \<open>(h, 0)\<close> and whose predecessor, if any,
  has a height below \<open>h\<close>; for every height absent from the sequence it fails with
  HeightNotFoundError, except that on the empty sequence the latest available height
  fails with the refused fetch of bundle id -1.
\<close>

theorem FindSnapshotBundleIdForHeight_correct:
  assumes fetch: "GetFinalizedBundleById u = servedBundles bundles"
    and parse: "map (ParseSnapshotFromKey u \<circ> ToKey) bundles = map Inr keys"
    and total: "totalBundles collector = of_nat (length bundles)"
    and bound: "length bundles \<le> 2 ^ 62"
    and sorted: "sorted (map (sint \<circ> fst) keys)"
    and contiguous: "chunksContiguous keys" "startsAtChunkZero keys"
  shows "if h \<in> fst ` set keys
         then \<exists>j<length keys.
                FindSnapshotBundleIdForHeight u collector h = Some (Inr (of_nat j)) \<and>
                keys ! j = (h, 0) \<and> (j = 0 \<or> fst (keys ! (j - 1)) <s h)
         else FindSnapshotBundleIdForHeight u collector h =
                (if bundles = [] \<and> h = latestAvailableHeight collector
                 then Some (Inl (GetBundleFailed (- 1) ''bundle not found''))
                 else Some (Inl (HeightNotFoundError h)))"
proof -
  have len: "length keys = length bundles" using parse by (metis length_map)
  let ?n = "length bundles"
  have loop_absent: "searchLoop u collector h 0 (of_nat ?n - 1) = Some (Inl (HeightNotFoundError h))"
    if "h \<notin> fst ` set keys"
  proof -
    have "\<And>i. 0 \<le> i \<Longrightarrow> i < ?n \<Longrightarrow> fst (keys ! i) \<noteq> h"
      using that len by (metis image_eqI nth_mem)
    then have "searchLoop u collector h (of_nat 0) (of_nat ?n - 1)
                 = Some (Inl (HeightNotFoundError h))"
      by (intro searchLoop_absent[OF fetch parse bound]) auto
    then show ?thesis by simp
  qed
  have loop_found: "\<exists>j<length keys.
      searchLoop u collector h 0 (of_nat ?n - 1) = Some (Inr (of_nat j)) \<and>
      keys ! j = (h, 0) \<and> (j = 0 \<or> fst (keys ! (j - 1)) <s h)"
    if "h \<in> fst ` set keys"
  proof -
    from that obtain i where "i < length keys" "fst (keys ! i) = h"
      by (metis imageE in_set_conv_nth)
    then have "\<exists>i. 0 \<le> i \<and> i < ?n \<and> fst (keys ! i) = h" using len by auto
    then have "\<exists>m. 0 \<le> m \<and> m < ?n \<and> fst (keys ! m) = h \<and>
           searchLoop u collector h (of_nat 0) (of_nat ?n - 1)
             = Some (Inr (of_nat m - snd (keys ! m)))"
      by (intro searchLoop_found[OF fetch parse bound sorted]) auto
    then obtain m where m: "m < length keys" "fst (keys ! m) = h"
      "searchLoop u collector h 0 (of_nat ?n - 1) = Some (Inr (of_nat m - snd (keys ! m)))"
      using len by auto
    from first_of_run[OF contiguous sorted m(1,2)] show ?thesis using m(3) by auto
  qed
  show ?thesis
  proof (cases "h = latestAvailableHeight collector")
    case False
    then have "FindSnapshotBundleIdForHeight u collector h
                 = searchLoop u collector h 0 (of_nat ?n - 1)"
      by (simp add: FindSnapshotBundleIdForHeight_def total)
    then show ?thesis using loop_absent loop_found False by auto
  next
    case True
    show ?thesis
    proof (cases "bundles = []")
      case Nil: True
      then have "keys = []" using len by simp
      moreover have "FindSnapshotBundleIdForHeight u collector h
                       = Some (Inl (GetBundleFailed (- 1) ''bundle not found''))"
        using True Nil by (simp add: FindSnapshotBundleIdForHeight_def total fetch served_minus_one)
      ultimately show ?thesis using True Nil by simp
    next
      case False
      then obtain k where k: "length bundles = Suc k" by (cases bundles) auto
      have last_id: "(of_nat ?n - 1 :: int64) = of_nat k" by (simp add: k)
      have f: "GetFinalizedBundleById u (chainRest collector) (poolId collector) (of_nat ?n - 1)
                 = Inr (bundles ! k)"
        unfolding last_id fetch using k bound by (intro served_nth) auto
      have p: "ParseSnapshotFromKey u (ToKey (bundles ! k)) = Inr (fst (keys ! k), snd (keys ! k))"
        using parsed_nth[OF parse, of k] k by simp
      have find: "FindSnapshotBundleIdForHeight u collector h =
           (if fst (keys ! k) = h then Some (Inr (of_nat k - snd (keys ! k)))
            else searchLoop u collector h 0 (of_nat ?n - 1))"
        using True f p
        by (simp add: FindSnapshotBundleIdForHeight_def total last_id Let_def case_prod_beta)
      show ?thesis
      proof (cases "fst (keys ! k) = h")
        case notlast: False
        then show ?thesis using find loop_absent loop_found False by auto
      next
        case last: True
        have klt: "k < length keys" using k len by simp
        then have mem: "h \<in> fst ` set keys" using last by (metis image_eqI nth_mem)
        from first_of_run[OF contiguous sorted klt last] show ?thesis
          using find last mem by auto
      qed
    qed
  qed
qed

text \<open>
  The scenario's ten bundles: height 2000 is found by the search at bundle 2, and
  height 2500, which no bundle has, is not found.
\<close>

theorem FindSnapshotBundleIdForHeight_correct_witness:
  "GetFinalizedBundleById scenarioPool = servedBundles scenarioBundles \<and>
   map (ParseSnapshotFromKey scenarioPool \<circ> ToKey) scenarioBundles = map Inr scenarioKeys \<and>
   totalBundles scenarioCollector = of_nat (length scenarioBundles) \<and>
   sorted (map (sint \<circ> fst) scenarioKeys) \<and>
   chunksContiguous scenarioKeys \<and> startsAtChunkZero scenarioKeys \<and>
   FindSnapshotBundleIdForHeight scenarioPool scenarioCollector 2000 = Some (Inr 2) \<and>
   FindSnapshotBundleIdForHeight scenarioPool scenarioCollector 2500
     = Some (Inl (HeightNotFoundError 2500))"
proof -
  have fetch: "GetFinalizedBundleById scenarioPool = servedBundles scenarioBundles"
    by (simp add: scenarioPool_def simulatedPool_def)
  have parse: "map (ParseSnapshotFromKey scenarioPool \<circ> ToKey) scenarioBundles
                 = map Inr scenarioKeys"
    by (simp add: scenarioPool_def scenarioKeys_def pool_defs parse_defs)
  have total: "totalBundles scenarioCollector = of_nat (length scenarioBundles)"
    by (simp add: scenarioCollector_def scenarioBundles_def)
  have bound: "length scenarioBundles \<le> 2 ^ 62"
    by (simp add: scenarioBundles_def)
  have sorted: "sorted (map (sint \<circ> fst) scenarioKeys)"
    by (simp add: scenarioKeys_def)
  have contiguous: "chunksContiguous scenarioKeys" "startsAtChunkZero scenarioKeys"
    by (simp_all add: scenarioKeys_def startsAtChunkZero_def)
  note correct = FindSnapshotBundleIdForHeight_correct
    [OF fetch parse total bound sorted contiguous]
  have "2000 \<in> fst ` set scenarioKeys" by (simp add: scenarioKeys_def)
  with correct[of 2000] obtain j where j: "j < length scenarioKeys"
    "FindSnapshotBundleIdForHeight scenarioPool scenarioCollector 2000 = Some (Inr (of_nat j))"
    "scenarioKeys ! j = (2000, 0)"
    by auto
  have "\<forall>i<length scenarioKeys. scenarioKeys ! i = (2000, 0) \<longrightarrow> i = 2"
    by (simp add: scenarioKeys_def All_less_Suc)
  then have "j = 2" using j(1,3) by blast
  then have found: "FindSnapshotBundleIdForHeight scenarioPool scenarioCollector 2000 = Some (Inr 2)"
    using j(2) by simp
  have "2500 \<notin> fst ` set scenarioKeys" by (simp add: scenarioKeys_def)
  with correct[of 2500]
  have absent: "FindSnapshotBundleIdForHeight scenarioPool scenarioCollector 2500
                  = Some (Inl (HeightNotFoundError 2500))"
    by (simp add: scenarioBundles_def)
  show ?thesis
    using fetch parse total sorted contiguous found absent by simp
qed

end
